theory Spec2Isabelle
  imports Complex_Main
begin

section \<open>Strings and patterns\<close>

text \<open>
  A Python \<open>str\<close> is a sequence of Unicode code points, and \<open>len\<close> counts code points;
  the heading patterns mention CJK characters, so a string is modelled as the list of its
  code points. Attribute values that only ever hold decimal numbers or fixed keywords are
  kept as \<^typ>\<open>string\<close>.
\<close>

type_synonym ustring = "nat list"

text \<open>
  \<open>str.isspace\<close>, which decides what \<open>str.strip()\<close> removes and what \<open>\s\<close> matches in a
  \<open>str\<close> pattern: U+0009..U+000D, U+001C..U+0020, U+0085, U+00A0, U+1680, U+2000..U+200A,
  U+2028, U+2029, U+202F, U+205F, U+3000.
\<close>

definition isspace :: "nat \<Rightarrow> bool" where
  "isspace c \<longleftrightarrow>
     (9 \<le> c \<and> c \<le> 13) \<or> (28 \<le> c \<and> c \<le> 32) \<or> c = 133 \<or> c = 160 \<or> c = 5760 \<or>
     (8192 \<le> c \<and> c \<le> 8202) \<or> c = 8232 \<or> c = 8233 \<or> c = 8239 \<or> c = 8287 \<or> c = 12288"

definition strip :: "ustring \<Rightarrow> ustring" where
  "strip s = rev (dropWhile isspace (rev (dropWhile isspace s)))"

text \<open>
  The fragment of regular expressions the three heading patterns are written in: a
  character class, a greedy \<open>+\<close> over a character class, concatenation, alternation and the
  negative lookahead \<open>(?!...)\<close>. \<open>rests r s\<close> lists, in the order the backtracking matcher
  tries them, what is left of \<open>s\<close> after each way of matching \<open>r\<close> at its start;
  \<open>re_match\<close> is \<open>pattern.match(s)\<close> being a match, that is, some way exists.
\<close>

datatype regex =
    Cls "nat \<Rightarrow> bool"
  | Plus "nat \<Rightarrow> bool"
  | Seq regex regex
  | Alt regex regex
  | NegLook regex

primrec rests :: "regex \<Rightarrow> ustring \<Rightarrow> ustring list" where
  "rests (Cls P) s = (case s of [] \<Rightarrow> [] | c # cs \<Rightarrow> if P c then [cs] else [])"
| "rests (Plus P) s = map (\<lambda>k. drop k s) (rev [1 ..< Suc (length (takeWhile P s))])"
| "rests (Seq r1 r2) s = concat (map (rests r2) (rests r1 s))"
| "rests (Alt r1 r2) s = rests r1 s @ rests r2 s"
| "rests (NegLook r) s = (if rests r s = [] then [s] else [])"

definition re_match :: "regex \<Rightarrow> ustring \<Rightarrow> bool" where
  "re_match r s \<longleftrightarrow> rests r s \<noteq> []"

text \<open>\<open>[0-9\<close>\<open>U+FF10-U+FF19]\<close>: ASCII and full-width digits.\<close>

definition digit :: "nat \<Rightarrow> bool" where
  "digit c \<longleftrightarrow> (48 \<le> c \<and> c \<le> 57) \<or> (65296 \<le> c \<and> c \<le> 65305)"

text \<open>\<open>[\.\<close>\<open>U+3002]\<close>: the full stop and the ideographic full stop.\<close>

definition dot :: "nat \<Rightarrow> bool" where
  "dot c \<longleftrightarrow> c = 46 \<or> c = 12290"

text \<open>\<open>[\s\<close>\<open>U+3000\<close>\<open>\.\<close>\<open>U+3002 U+3001]\<close>: what may follow a one-level number.\<close>

definition h1_sep :: "nat \<Rightarrow> bool" where
  "h1_sep c \<longleftrightarrow> isspace c \<or> c = 12288 \<or> c = 46 \<or> c = 12290 \<or> c = 12289"

text \<open>The CJK numerals one to ten and hundred (U+4E00, U+4E8C, U+4E09, U+56DB, U+4E94,
  U+516D, U+4E03, U+516B, U+4E5D, U+5341, U+767E).\<close>

definition cjk_num :: "nat \<Rightarrow> bool" where
  "cjk_num c \<longleftrightarrow> c \<in> set [19968, 20108, 19977, 22235, 20116, 20845, 19971, 20843, 20061, 21313, 30334]"

text \<open>\<open>[U+3001\<close>\<open>\.]\<close>: the ideographic comma and the full stop.\<close>

definition cjk_sep :: "nat \<Rightarrow> bool" where
  "cjk_sep c \<longleftrightarrow> c = 12289 \<or> c = 46"

text \<open>The CJK numerals or an ASCII digit (the third alternative has no full-width digits).\<close>

definition cjk_num_or_ascii_digit :: "nat \<Rightarrow> bool" where
  "cjk_num_or_ascii_digit c \<longleftrightarrow> cjk_num c \<or> (48 \<le> c \<and> c \<le> 57)"

text \<open>U+7B2C, the ordinal prefix, and the unit characters U+7AE0, U+8282, U+90E8, U+7BC7.\<close>

definition di :: "nat \<Rightarrow> bool" where
  "di c \<longleftrightarrow> c = 31532"

definition unit_char :: "nat \<Rightarrow> bool" where
  "unit_char c \<longleftrightarrow> c \<in> set [31456, 33410, 37096, 31687]"

definition RE_HEADING3 :: regex where
  "RE_HEADING3 = Seq (Plus digit) (Seq (Cls dot) (Seq (Plus digit) (Seq (Cls dot) (Plus digit))))"

definition RE_HEADING2 :: regex where
  "RE_HEADING2 =
     Seq (Plus digit) (Seq (Cls dot) (Seq (Plus digit) (NegLook (Seq (Cls dot) (Cls digit)))))"

definition RE_HEADING1 :: regex where
  "RE_HEADING1 =
     Alt (Seq (Plus digit) (Cls h1_sep))
      (Alt (Seq (Plus cjk_num) (Cls cjk_sep))
           (Seq (Cls di) (Seq (Plus cjk_num_or_ascii_digit) (Cls unit_char))))"

definition HEADING_MAX_LEN :: nat where
  "HEADING_MAX_LEN = 40"

definition MAIN_TITLE_MAX_LEN :: nat where
  "MAIN_TITLE_MAX_LEN = 30"

section \<open>Documents and templates\<close>

text \<open>
  The part of a document the program reads and writes, as the XML it walks: a paragraph
  has its text, its runs and an optional \<open>w:pPr\<close>; a run has an optional \<open>w:rPr\<close> holding
  optional \<open>w:rFonts\<close>, \<open>w:sz\<close>, \<open>w:szCs\<close> and \<open>w:b\<close> elements. An absent element or attribute
  is \<open>None\<close>. The \<open>w:val\<close> of a size element is a decimal number that the program reads
  with \<open>int\<close> and writes with \<open>str\<close>; the model stores that number.
\<close>

record rfonts =
  w_ascii :: "ustring option"
  w_hAnsi :: "ustring option"
  w_eastAsia :: "ustring option"
  w_cs :: "ustring option"

record size_elem =
  w_val :: "int option"

record bold_elem =
  w_bval :: "string option"

record rpr =
  w_rFonts :: "rfonts option"
  w_sz :: "size_elem option"
  w_szCs :: "size_elem option"
  w_b :: "bold_elem option"

record run =
  rtext :: ustring
  w_rPr :: "rpr option"

record spacing_elem =
  w_before :: "string option"
  w_after :: "string option"
  w_line :: "string option"
  w_lineRule :: "string option"

record ind_elem =
  w_firstLine :: "string option"
  w_firstLineChars :: "string option"

record ppr =
  w_spacing :: "spacing_elem option"
  w_ind :: "ind_elem option"

record par =
  ptext :: ustring
  runs :: "run list"
  w_pPr :: "ppr option"

datatype level = main_title | heading1 | heading2 | heading3 | body

text \<open>
  A template. The sizes are integers (half-points) for each of the five levels; the
  spacing table may lack a level (the program then uses \<open>[0, 0]\<close>); the numbers of the
  spacing table and the line-spacing multiplier are the numbers written in the
  configuration, taken as exact rationals.
\<close>

record template =
  chinese_font :: ustring
  western_font :: ustring
  sizes :: "level \<Rightarrow> int"
  line_spacing :: rat
  spacing :: "level \<rightharpoonup> rat \<times> rat"
  first_line_indent :: bool

datatype py_error = IndexError | OSError

section \<open>Heading detection\<close>

definition get_run_size :: "run \<Rightarrow> int" where
  "get_run_size r =
     (case w_rPr r of None \<Rightarrow> 0
      | Some rp \<Rightarrow> (case w_sz rp of None \<Rightarrow> 0
          | Some e \<Rightarrow> (case w_val e of None \<Rightarrow> 0 | Some n \<Rightarrow> n)))"

fun max_list :: "int list \<Rightarrow> int" where
  "max_list [] = 0"
| "max_list [x] = x"
| "max_list (x # y # ys) = max x (max_list (y # ys))"

definition para_max_size :: "par \<Rightarrow> int" where
  "para_max_size p = max_list (map get_run_size (runs p))"

definition run_is_bold :: "run \<Rightarrow> bool" where
  "run_is_bold r =
     (case w_rPr r of None \<Rightarrow> False
      | Some rp \<Rightarrow> (case w_b rp of None \<Rightarrow> False
          | Some e \<Rightarrow> (case w_bval e of None \<Rightarrow> ''1'' | Some v \<Rightarrow> v) \<noteq> ''0''))"

definition para_is_bold :: "par \<Rightarrow> bool" where
  "para_is_bold p = list_ex run_is_bold (runs p)"

text \<open>
  \<open>detect_level\<close>. The index is the position \<open>enumerate\<close> gives, a natural number.
  \<open>all_sizes[idx - 1]\<close> is read whenever \<open>idx > 0\<close> and raises IndexError when
  \<open>idx - 1\<close> is not an index of the list; \<open>all_sizes[idx + 1]\<close> is read only under its guard.
\<close>

definition detect_level :: "par \<Rightarrow> int list \<Rightarrow> nat \<Rightarrow> py_error + level" where
  "detect_level para all_sizes idx =
     (let t = strip (ptext para) in
      if t = [] \<or> length t > HEADING_MAX_LEN then Inr body
      else if re_match RE_HEADING3 t then Inr heading3
      else if re_match RE_HEADING2 t then Inr heading2
      else if re_match RE_HEADING1 t then Inr heading1
      else if length t \<le> MAIN_TITLE_MAX_LEN then
        (let my_size = para_max_size para in
         if idx > 0 \<and> \<not> idx - 1 < length all_sizes then Inl IndexError
         else
           let prev_size = (if idx > 0 then all_sizes ! (idx - 1) else 0);
               next_size = (if idx + 1 < length all_sizes then all_sizes ! (idx + 1) else 0)
           in if para_is_bold para \<or> (my_size > 0 \<and> my_size > prev_size \<and> my_size > next_size)
              then Inr main_title else Inr body)
      else Inr body)"

section \<open>Applying a format\<close>

text \<open>\<open>str\<close> of an integer: its decimal digits, after a minus sign when negative.\<close>

definition digit_char :: "nat \<Rightarrow> char" where
  "digit_char d = ''0123456789'' ! d"

function str_nat :: "nat \<Rightarrow> string" where
  "str_nat n = (if n < 10 then [digit_char n] else str_nat (n div 10) @ [digit_char (n mod 10)])"
  by pat_completeness auto
termination
  by (relation "measure id") auto

declare str_nat.simps [simp del]

definition str_int :: "int \<Rightarrow> string" where
  "str_int n = (if n < 0 then CHR ''-'' # str_nat (nat (- n)) else str_nat (nat n))"

text \<open>\<open>int\<close> of a number: the fractional part is dropped, rounding toward zero.\<close>

definition py_int :: "rat \<Rightarrow> int" where
  "py_int x = (if 0 \<le> x then \<lfloor>x\<rfloor> else \<lceil>x\<rceil>)"

definition new_rfonts :: rfonts where
  "new_rfonts = \<lparr>w_ascii = None, w_hAnsi = None, w_eastAsia = None, w_cs = None\<rparr>"

definition new_rpr :: rpr where
  "new_rpr = \<lparr>w_rFonts = None, w_sz = None, w_szCs = None, w_b = None\<rparr>"

definition new_spacing :: spacing_elem where
  "new_spacing = \<lparr>w_before = None, w_after = None, w_line = None, w_lineRule = None\<rparr>"

definition new_ind :: ind_elem where
  "new_ind = \<lparr>w_firstLine = None, w_firstLineChars = None\<rparr>"

definition new_ppr :: ppr where
  "new_ppr = \<lparr>w_spacing = None, w_ind = None\<rparr>"

text \<open>The body of the loop over \<open>w:sz\<close> and \<open>w:szCs\<close>: find or create the element, set its value.\<close>

definition set_size :: "size_elem option \<Rightarrow> int \<Rightarrow> size_elem option" where
  "set_size e n = Some ((case e of None \<Rightarrow> \<lparr>w_val = None\<rparr> | Some x \<Rightarrow> x)\<lparr>w_val := Some n\<rparr>)"

definition apply_run_format :: "run \<Rightarrow> int \<Rightarrow> ustring \<Rightarrow> ustring \<Rightarrow> run" where
  "apply_run_format r size_half_pt chinese western =
     (let rp = (case w_rPr r of None \<Rightarrow> new_rpr | Some x \<Rightarrow> x);
          rf = (case w_rFonts rp of None \<Rightarrow> new_rfonts | Some f \<Rightarrow> f);
          rf' = rf\<lparr>w_ascii := Some western, w_hAnsi := Some western,
                    w_eastAsia := Some chinese, w_cs := Some western\<rparr>
      in r\<lparr>w_rPr := Some (rp\<lparr>w_rFonts := Some rf',
                                 w_sz := set_size (w_sz rp) size_half_pt,
                                 w_szCs := set_size (w_szCs rp) size_half_pt\<rparr>)\<rparr>)"

definition apply_para_format :: "par \<Rightarrow> level \<Rightarrow> template \<Rightarrow> par" where
  "apply_para_format para lv tmpl =
     (let size_half_pt = sizes tmpl lv;
          do_indent = first_line_indent tmpl;
          pp = (case w_pPr para of None \<Rightarrow> new_ppr | Some x \<Rightarrow> x);
          sp = (case w_spacing pp of None \<Rightarrow> new_spacing | Some x \<Rightarrow> x);
          (before_pt, after_pt) = (case spacing tmpl lv of None \<Rightarrow> (0, 0) | Some x \<Rightarrow> x);
          multiplier = (if lv = body then line_spacing tmpl else 1);
          sp' = sp\<lparr>w_before := Some (str_int (py_int (before_pt * 20))),
                    w_after := Some (str_int (py_int (after_pt * 20))),
                    w_line := Some (str_int (py_int (240 * multiplier))),
                    w_lineRule := Some ''auto''\<rparr>;
          ind = (case w_ind pp of None \<Rightarrow> new_ind | Some x \<Rightarrow> x);
          ind' = (if do_indent \<and> lv = body
                  then ind\<lparr>w_firstLine := Some (str_int (size_half_pt * 20))\<rparr>
                  else ind\<lparr>w_firstLine := None, w_firstLineChars := None\<rparr>)
      in para\<lparr>w_pPr := Some (pp\<lparr>w_spacing := Some sp', w_ind := Some ind'\<rparr>)\<rparr>)"


definition para_ind :: "par \<Rightarrow> (ind_elem \<Rightarrow> string option) \<Rightarrow> string option" where
  "para_ind para attr =
     (case w_pPr para of None \<Rightarrow> None
      | Some pp \<Rightarrow> (case w_ind pp of None \<Rightarrow> None | Some i \<Rightarrow> attr i))"

section \<open>Checking a document\<close>

text \<open>
  A problem description. The message of a size mismatch prints the target and the
  current size (each halved); the model keeps the two sizes.
\<close>

datatype problem = SizeMismatch int int | IndentMissing

record issue =
  i_level :: level
  i_text :: ustring
  i_issues :: "problem list"

text \<open>The loop over the runs of one paragraph, with its \<open>break\<close>.\<close>

fun check_sizes :: "int \<Rightarrow> run list \<Rightarrow> problem list" where
  "check_sizes target_size [] = []"
| "check_sizes target_size (r # rs) =
     (let current = get_run_size r in
      if current \<noteq> 0 \<and> current \<noteq> target_size then [SizeMismatch target_size current]
      else check_sizes target_size rs)"

definition check_indent :: "par \<Rightarrow> level \<Rightarrow> template \<Rightarrow> problem list" where
  "check_indent para lv tmpl =
     (if lv = body \<and> first_line_indent tmpl then
        (let has_indent = (case para_ind para w_firstLine of None \<Rightarrow> False | Some v \<Rightarrow> v \<noteq> [])
         in if \<not> has_indent then [IndentMissing] else [])
      else [])"

text \<open>
  A document is the list of its paragraphs; opening the file is outside the model.
  The loop over \<open>enumerate(paragraphs)\<close> carries the index.
\<close>

fun check_loop :: "template \<Rightarrow> int list \<Rightarrow> nat \<Rightarrow> par list \<Rightarrow> py_error + issue list" where
  "check_loop tmpl all_sizes i [] = Inr []"
| "check_loop tmpl all_sizes i (para # ps) =
     (let t = strip (ptext para) in
      if t = [] \<or> runs para = [] then check_loop tmpl all_sizes (Suc i) ps
      else case detect_level para all_sizes i of
          Inl e \<Rightarrow> Inl e
        | Inr lv \<Rightarrow>
            (let para_issues = check_sizes (sizes tmpl lv) (runs para) @ check_indent para lv tmpl
             in case check_loop tmpl all_sizes (Suc i) ps of
                  Inl e \<Rightarrow> Inl e
                | Inr rest \<Rightarrow>
                    Inr (if para_issues \<noteq> []
                         then \<lparr>i_level = lv, i_text = take 40 t, i_issues = para_issues\<rparr> # rest
                         else rest)))"

definition check_format :: "par list \<Rightarrow> template \<Rightarrow> py_error + issue list" where
  "check_format paragraphs tmpl =
     check_loop tmpl (map para_max_size paragraphs) 0 paragraphs"

section \<open>Converting a document\<close>

text \<open>What \<open>log_fn\<close> receives: one line for each processed paragraph, with its level and the
  preview of its text, and the closing line with the count.\<close>

datatype log_line = Processed level ustring | Finished nat

definition preview :: "ustring \<Rightarrow> ustring" where
  "preview s = take 42 s @ (if length s > 42 then [46, 46, 46] else [])"

fun convert_loop :: "template \<Rightarrow> int list \<Rightarrow> nat \<Rightarrow> par list \<Rightarrow> py_error + par list \<times> log_line list" where
  "convert_loop tmpl all_sizes i [] = Inr ([], [])"
| "convert_loop tmpl all_sizes i (para # ps) =
     (if strip (ptext para) = [] \<or> runs para = [] then
        (case convert_loop tmpl all_sizes (Suc i) ps of
           Inl e \<Rightarrow> Inl e
         | Inr (qs, lg) \<Rightarrow> Inr (para # qs, lg))
      else case detect_level para all_sizes i of
          Inl e \<Rightarrow> Inl e
        | Inr lv \<Rightarrow>
            (let para' = apply_para_format
                   (para\<lparr>runs := map (\<lambda>r. apply_run_format r (sizes tmpl lv)
                                            (chinese_font tmpl) (western_font tmpl)) (runs para)\<rparr>)
                   lv tmpl
             in case convert_loop tmpl all_sizes (Suc i) ps of
                  Inl e \<Rightarrow> Inl e
                | Inr (qs, lg) \<Rightarrow> Inr (para' # qs, Processed lv (preview (ptext para)) # lg)))"

text \<open>The converted paragraphs, as saved, and the lines logged. The count of the closing
  line is the number of paragraphs processed.\<close>

definition convert_document :: "par list \<Rightarrow> template \<Rightarrow> py_error + par list \<times> log_line list" where
  "convert_document paragraphs tmpl =
     (case convert_loop tmpl (map para_max_size paragraphs) 0 paragraphs of
        Inl e \<Rightarrow> Inl e
      | Inr (qs, lg) \<Rightarrow> Inr (qs, lg @ [Finished (length lg)]))"

section \<open>The configuration file\<close>

text \<open>
  The configuration maps template names to templates, in the order of the file. The two
  built-in templates are named U+901A U+7528 U+6A21 U+677F and U+5B66 U+672F U+671F U+520A
  U+6295 U+7A3F; both use the fonts U+5B8B U+4F53 and Times New Roman.
\<close>

type_synonym config = "(ustring \<times> template) list"

definition general_template :: template where
  "general_template =
     \<lparr>chinese_font = [23435, 20307],
      western_font = [84, 105, 109, 101, 115, 32, 78, 101, 119, 32, 82, 111, 109, 97, 110],
      sizes = (\<lambda>lv. case lv of main_title \<Rightarrow> 32 | heading1 \<Rightarrow> 30 | heading2 \<Rightarrow> 28
                 | heading3 \<Rightarrow> 24 | body \<Rightarrow> 21),
      line_spacing = 3 / 2,
      spacing = (\<lambda>lv. Some (case lv of main_title \<Rightarrow> (24, 12) | heading1 \<Rightarrow> (24, 6)
                 | heading2 \<Rightarrow> (18, 6) | heading3 \<Rightarrow> (12, 6) | body \<Rightarrow> (0, 0))),
      first_line_indent = True\<rparr>"

definition journal_template :: template where
  "journal_template =
     \<lparr>chinese_font = [23435, 20307],
      western_font = [84, 105, 109, 101, 115, 32, 78, 101, 119, 32, 82, 111, 109, 97, 110],
      sizes = (\<lambda>lv. case lv of main_title \<Rightarrow> 32 | heading1 \<Rightarrow> 28 | heading2 \<Rightarrow> 26
                 | heading3 \<Rightarrow> 24 | body \<Rightarrow> 24),
      line_spacing = 2,
      spacing = (\<lambda>lv. Some (case lv of main_title \<Rightarrow> (12, 12) | heading1 \<Rightarrow> (12, 6)
                 | heading2 \<Rightarrow> (6, 6) | heading3 \<Rightarrow> (6, 3) | body \<Rightarrow> (0, 0))),
      first_line_indent = True\<rparr>"

definition DEFAULT_CONFIG :: config where
  "DEFAULT_CONFIG =
     [([36890, 29992, 27169, 26495], general_template),
      ([23398, 26415, 26399, 21002, 25237, 31295], journal_template)]"

text \<open>
  What the program can observe of \<open>config.json\<close>: there is no such path; or the path exists
  and opening or decoding it fails; or it is read and is not JSON; or it is read and parses
  to a configuration. Whether the path can be opened for writing is a separate fact of the
  file system.
\<close>

datatype file_state = Missing | Unreadable | Corrupt | Holds config

record filesystem =
  config_file :: file_state
  writable :: bool

text \<open>\<open>save_config\<close>: \<open>open(CONFIG_FILE, "w")\<close> raises OSError when the path cannot be
  written; otherwise the file holds the configuration afterwards.\<close>

definition save_config :: "config \<Rightarrow> filesystem \<Rightarrow> py_error + filesystem" where
  "save_config cfg fs =
     (if writable fs then Inr (fs\<lparr>config_file := Holds cfg\<rparr>) else Inl OSError)"

text \<open>\<open>load_config\<close> returns the configuration, or the exception that leaves it, and the
  file system afterwards. Only the read is inside the \<open>try\<close>.\<close>

definition load_config :: "filesystem \<Rightarrow> (py_error + config) \<times> filesystem" where
  "load_config fs =
     (case config_file fs of
        Holds cfg \<Rightarrow> (Inr cfg, fs)
      | _ \<Rightarrow> (case save_config DEFAULT_CONFIG fs of
                Inl e \<Rightarrow> (Inl e, fs)
              | Inr fs' \<Rightarrow> (Inr DEFAULT_CONFIG, fs')))"

section \<open>Example documents\<close>

text \<open>A run with the given text, size and boldness, and nothing else set.\<close>

definition mk_run :: "ustring \<Rightarrow> int option \<Rightarrow> bool \<Rightarrow> run" where
  "mk_run s n bold =
     \<lparr>rtext = s,
      w_rPr = Some \<lparr>w_rFonts = None,
                    w_sz = (case n of None \<Rightarrow> None | Some v \<Rightarrow> Some \<lparr>w_val = Some v\<rparr>),
                    w_szCs = None,
                    w_b = (if bold then Some \<lparr>w_bval = None\<rparr> else None)\<rparr>\<rparr>"

text \<open>A paragraph of one such run and no paragraph properties.\<close>

definition mk_par :: "ustring \<Rightarrow> int option \<Rightarrow> bool \<Rightarrow> par" where
  "mk_par s n bold = \<lparr>ptext = s, runs = [mk_run s n bold], w_pPr = None\<rparr>"

text \<open>The text \<open>1.2.3\<close>, a space and thirty-five letters \<open>a\<close>: forty-one characters.\<close>

definition long_numbered :: ustring where
  "long_numbered = [49, 46, 50, 46, 51, 32] @ replicate 35 97"







text \<open>A paragraph that arrives with both first-line indent attributes set.\<close>

definition indented_par :: par where
  "indented_par =
     \<lparr>ptext = [97], runs = [mk_run [97] None False],
      w_pPr = Some \<lparr>w_spacing = None,
                    w_ind = Some \<lparr>w_firstLine = Some ''200'', w_firstLineChars = Some ''200''\<rparr>\<rparr>\<rparr>"

text \<open>The \<open>w:b\<close> element of a run, if any.\<close>

definition run_bold_elem :: "run \<Rightarrow> bold_elem option" where
  "run_bold_elem r = (case w_rPr r of None \<Rightarrow> None | Some rp \<Rightarrow> w_b rp)"

text \<open>What the conversion loop does to a processed paragraph of a given level: every run is
  formatted, then the paragraph.\<close>

definition format_par :: "template \<Rightarrow> level \<Rightarrow> par \<Rightarrow> par" where
  "format_par tmpl lv para =
     apply_para_format
       (para\<lparr>runs := map (\<lambda>r. apply_run_format r (sizes tmpl lv)
                                (chinese_font tmpl) (western_font tmpl)) (runs para)\<rparr>)
       lv tmpl"

text \<open>A paragraph whose level is decided by its text or its boldness alone: the rules up to
  the one-level pattern decide, or the text is longer than 30 characters, or a run is bold.\<close>

definition size_independent :: "par \<Rightarrow> bool" where
  "size_independent para \<longleftrightarrow>
     (let t = strip (ptext para) in
      t = [] \<or> length t > 30 \<or> re_match RE_HEADING3 t \<or> re_match RE_HEADING2 t \<or>
      re_match RE_HEADING1 t \<or> para_is_bold para)"

fun is_size_mismatch :: "problem \<Rightarrow> bool" where
  "is_size_mismatch (SizeMismatch t c) = True"
| "is_size_mismatch IndentMissing = False"

section \<open>Properties of the patterns\<close>

lemmas cls_defs = digit_def dot_def h1_sep_def cjk_num_def cjk_sep_def
  cjk_num_or_ascii_digit_def di_def unit_char_def isspace_def

lemmas re_defs = re_match_def RE_HEADING3_def RE_HEADING2_def RE_HEADING1_def

lemma rests_Plus_mem:
  assumes "xs \<noteq> []" and "list_all P xs"
  shows "ys \<in> set (rests (Plus P) (xs @ ys))"
proof -
  have "takeWhile P (xs @ ys) = xs @ takeWhile P ys"
    using assms(2) by (simp add: list_all_iff)
  then have "length xs \<le> length (takeWhile P (xs @ ys))"
    by simp
  moreover have "1 \<le> length xs"
    using assms(1) by (cases xs) simp_all
  ultimately have "length xs \<in> set (rev [1 ..< Suc (length (takeWhile P (xs @ ys)))])"
    by auto
  then have "drop (length xs) (xs @ ys) \<in> set (rests (Plus P) (xs @ ys))"
    unfolding rests.simps set_map by (rule imageI)
  then show ?thesis by simp
qed

lemma rests_Seq_mem:
  "x \<in> set (rests r1 s) \<Longrightarrow> y \<in> set (rests r2 x) \<Longrightarrow> y \<in> set (rests (Seq r1 r2) s)"
  by auto

lemma rests_Cls_mem: "P c \<Longrightarrow> cs \<in> set (rests (Cls P) (c # cs))"
  by simp

lemma re_match_mem: "y \<in> set (rests r s) \<Longrightarrow> re_match r s"
  by (auto simp: re_match_def)

lemma three_level_matches:
  assumes "ds1 \<noteq> []" "list_all digit ds1" "dot s1" "ds2 \<noteq> []" "list_all digit ds2" "dot s2"
    "ds3 \<noteq> []" "list_all digit ds3"
  shows "re_match RE_HEADING3 (ds1 @ s1 # ds2 @ s2 # ds3 @ rest)"
proof -
  have a: "rest \<in> set (rests (Plus digit) (ds3 @ rest))"
    using assms by (intro rests_Plus_mem)
  have b: "rest \<in> set (rests (Seq (Cls dot) (Plus digit)) (s2 # ds3 @ rest))"
    using assms a by (intro rests_Seq_mem [OF rests_Cls_mem])
  have c: "rest \<in> set (rests (Seq (Plus digit) (Seq (Cls dot) (Plus digit))) (ds2 @ s2 # ds3 @ rest))"
    using assms b by (intro rests_Seq_mem [OF rests_Plus_mem])
  have d: "rest \<in> set (rests (Seq (Cls dot) (Seq (Plus digit) (Seq (Cls dot) (Plus digit))))
      (s1 # ds2 @ s2 # ds3 @ rest))"
    using assms c by (intro rests_Seq_mem [OF rests_Cls_mem])
  have "rest \<in> set (rests RE_HEADING3 (ds1 @ s1 # ds2 @ s2 # ds3 @ rest))"
    unfolding RE_HEADING3_def using assms d by (intro rests_Seq_mem [OF rests_Plus_mem])
  then show ?thesis by (rule re_match_mem)
qed

text \<open>The lookahead of the two-level pattern is defeated by backtracking when the second
  component has more than one digit: \<open>1.23.4\<close> matches it, with \<open>1.2\<close>. It is still
  classified by the three-level pattern, which is tried first.\<close>

lemma RE_HEADING2_backtracks: "re_match RE_HEADING2 [49, 46, 50, 51, 46, 52]"
  by (simp add: re_defs cls_defs)

lemma long_numbered_strip: "strip long_numbered = long_numbered"
  by (simp add: strip_def long_numbered_def isspace_def)

lemma long_numbered_length: "length long_numbered = 41"
  by (simp add: long_numbered_def)

section \<open>Heading detection: the claims\<close>

text \<open>
  Claim C3. A paragraph whose text is empty or all whitespace after trimming, or whose
  trimmed text is longer than 40 characters, is classified as body, whatever its numbering,
  its boldness, its sizes and its neighbours are.
\<close>

theorem long_or_empty_is_body:
  "strip (ptext para) = [] \<or> length (strip (ptext para)) > 40 \<Longrightarrow>
   detect_level para all_sizes idx = Inr body"
  by (auto simp: detect_level_def HEADING_MAX_LEN_def)

text \<open>A bold paragraph of size 99 between two of size 0, numbered \<open>1.2.3\<close>, of 41 characters.\<close>

theorem long_or_empty_is_body_witness:
  "(strip (ptext (mk_par long_numbered (Some 99) True)) = [] \<or>
    length (strip (ptext (mk_par long_numbered (Some 99) True))) > 40) \<and>
   detect_level (mk_par long_numbered (Some 99) True) [0, 99, 0] 1 = Inr body"
proof -
  have h: "strip (ptext (mk_par long_numbered (Some 99) True)) = [] \<or>
      length (strip (ptext (mk_par long_numbered (Some 99) True))) > 40"
    by (simp add: mk_par_def long_numbered_strip long_numbered_length)
  show ?thesis
    using h long_or_empty_is_body [OF h, of "[0, 99, 0]" 1] by simp
qed

text \<open>
  Claim C2, as stated, says that every text beginning with a three-component number is
  classified as heading3. A text of 41 characters that begins with \<open>1.2.3\<close> is body: the
  length test comes before the patterns.
\<close>

theorem numbered_long_text_counterexample:
  "list_all digit [49] \<and> dot 46 \<and> list_all digit [50] \<and> list_all digit [51] \<and>
   strip (ptext (mk_par long_numbered None False)) =
     [49] @ 46 # [50] @ 46 # [51] @ (32 # replicate 35 97) \<and>
   detect_level (mk_par long_numbered None False) [0] 0 = Inr body"
  by (simp add: detect_level_def mk_par_def long_numbered_strip long_numbered_length
      HEADING_MAX_LEN_def) (simp add: long_numbered_def digit_def dot_def)

text \<open>
  Claim C2, amended. The five example texts are classified as stated, and the two-level
  pattern does not match the first of them. A trimmed text that begins with digits, a
  stop, digits, a stop and a digit is never classified as heading2, and is classified as
  heading3 whenever it has at most 40 characters.
\<close>

theorem numbering_examples:
  "(strip (ptext para) = [49, 46, 50, 46, 51, 32, 23454, 39564, 32467, 26524] \<longrightarrow>
      detect_level para all_sizes idx = Inr heading3 \<and>
      \<not> re_match RE_HEADING2 (strip (ptext para))) \<and>
   (strip (ptext para) = [49, 46, 50, 32, 23454, 39564, 26041, 27861] \<longrightarrow>
      detect_level para all_sizes idx = Inr heading2) \<and>
   (strip (ptext para) = [49, 32, 32490, 35770] \<longrightarrow>
      detect_level para all_sizes idx = Inr heading1) \<and>
   (strip (ptext para) = [31532, 19968, 31456, 32, 32490, 35770] \<longrightarrow>
      detect_level para all_sizes idx = Inr heading1) \<and>
   (strip (ptext para) = [19968, 12289, 30740, 31350, 32972, 26223] \<longrightarrow>
      detect_level para all_sizes idx = Inr heading1) \<and>
   (dsa \<noteq> [] \<and> list_all digit dsa \<and> dot sa \<and> dsb \<noteq> [] \<and> list_all digit dsb \<and> dot sb \<and>
    dsc \<noteq> [] \<and> list_all digit dsc \<and> strip (ptext para) = dsa @ sa # dsb @ sb # dsc @ rest \<longrightarrow>
      detect_level para all_sizes idx \<noteq> Inr heading2 \<and>
      (length (strip (ptext para)) \<le> 40 \<longrightarrow> detect_level para all_sizes idx = Inr heading3))"
proof (intro conjI impI)
  assume "strip (ptext para) = [49, 46, 50, 46, 51, 32, 23454, 39564, 32467, 26524]"
  then show "detect_level para all_sizes idx = Inr heading3"
    by (simp add: detect_level_def re_defs cls_defs HEADING_MAX_LEN_def)
next
  assume "strip (ptext para) = [49, 46, 50, 46, 51, 32, 23454, 39564, 32467, 26524]"
  then show "\<not> re_match RE_HEADING2 (strip (ptext para))"
    by (simp add: re_defs cls_defs)
next
  assume "strip (ptext para) = [49, 46, 50, 32, 23454, 39564, 26041, 27861]"
  then show "detect_level para all_sizes idx = Inr heading2"
    by (simp add: detect_level_def re_defs cls_defs HEADING_MAX_LEN_def)
next
  assume "strip (ptext para) = [49, 32, 32490, 35770]"
  then show "detect_level para all_sizes idx = Inr heading1"
    by (simp add: detect_level_def re_defs cls_defs HEADING_MAX_LEN_def)
next
  assume "strip (ptext para) = [31532, 19968, 31456, 32, 32490, 35770]"
  then show "detect_level para all_sizes idx = Inr heading1"
    by (simp add: detect_level_def re_defs cls_defs HEADING_MAX_LEN_def)
next
  assume "strip (ptext para) = [19968, 12289, 30740, 31350, 32972, 26223]"
  then show "detect_level para all_sizes idx = Inr heading1"
    by (simp add: detect_level_def re_defs cls_defs HEADING_MAX_LEN_def)
next
  assume a: "dsa \<noteq> [] \<and> list_all digit dsa \<and> dot sa \<and> dsb \<noteq> [] \<and> list_all digit dsb \<and> dot sb \<and>
    dsc \<noteq> [] \<and> list_all digit dsc \<and> strip (ptext para) = dsa @ sa # dsb @ sb # dsc @ rest"
  then have m: "re_match RE_HEADING3 (strip (ptext para))"
    using three_level_matches [of dsa sa dsb sb dsc rest] by simp
  then show "detect_level para all_sizes idx \<noteq> Inr heading2"
    by (simp add: detect_level_def Let_def)
  assume "length (strip (ptext para)) \<le> 40"
  moreover have "strip (ptext para) \<noteq> []"
    using a by auto
  ultimately show "detect_level para all_sizes idx = Inr heading3"
    using m by (simp add: detect_level_def HEADING_MAX_LEN_def)
qed

text \<open>The five examples, each with a space before and an ideographic space after, and
  \<open>1.23.4\<close>, which the two-level pattern also matches.\<close>

theorem numbering_examples_witness:
  "detect_level (mk_par (32 # [49, 46, 50, 46, 51, 32, 23454, 39564, 32467, 26524] @ [12288]) None False) [0] 0 = Inr heading3 \<and>
   \<not> re_match RE_HEADING2 (strip (32 # [49, 46, 50, 46, 51, 32, 23454, 39564, 32467, 26524] @ [12288])) \<and>
   detect_level (mk_par (32 # [49, 46, 50, 32, 23454, 39564, 26041, 27861] @ [12288]) None False) [0] 0 = Inr heading2 \<and>
   detect_level (mk_par (32 # [49, 32, 32490, 35770] @ [12288]) None False) [0] 0 = Inr heading1 \<and>
   detect_level (mk_par (32 # [31532, 19968, 31456, 32, 32490, 35770] @ [12288]) None False) [0] 0 = Inr heading1 \<and>
   detect_level (mk_par (32 # [19968, 12289, 30740, 31350, 32972, 26223] @ [12288]) None False) [0] 0 = Inr heading1 \<and>
   re_match RE_HEADING2 (strip [49, 46, 50, 51, 46, 52]) \<and>
   detect_level (mk_par [49, 46, 50, 51, 46, 52] None False) [0] 0 = Inr heading3"
proof -
  note ev = mk_par_def strip_def isspace_def digit_def dot_def
  have 1: "detect_level (mk_par (32 # [49, 46, 50, 46, 51, 32, 23454, 39564, 32467, 26524] @ [12288]) None False) [0] 0 = Inr heading3 \<and>
      \<not> re_match RE_HEADING2 (strip (32 # [49, 46, 50, 46, 51, 32, 23454, 39564, 32467, 26524] @ [12288]))"
    using numbering_examples [where para = "mk_par (32 # [49, 46, 50, 46, 51, 32, 23454, 39564, 32467, 26524] @ [12288]) None False"
        and all_sizes = "[0]" and idx = 0 and dsa = "[]" and dsb = "[]" and dsc = "[]"
        and sa = 0 and sb = 0 and rest = "[]"]
    by (simp add: ev)
  have 2: "detect_level (mk_par (32 # [49, 46, 50, 32, 23454, 39564, 26041, 27861] @ [12288]) None False) [0] 0 = Inr heading2"
    using numbering_examples [where para = "mk_par (32 # [49, 46, 50, 32, 23454, 39564, 26041, 27861] @ [12288]) None False"
        and all_sizes = "[0]" and idx = 0 and dsa = "[]" and dsb = "[]" and dsc = "[]"
        and sa = 0 and sb = 0 and rest = "[]"]
    by (simp add: ev)
  have 3: "detect_level (mk_par (32 # [49, 32, 32490, 35770] @ [12288]) None False) [0] 0 = Inr heading1"
    using numbering_examples [where para = "mk_par (32 # [49, 32, 32490, 35770] @ [12288]) None False"
        and all_sizes = "[0]" and idx = 0 and dsa = "[]" and dsb = "[]" and dsc = "[]"
        and sa = 0 and sb = 0 and rest = "[]"]
    by (simp add: ev)
  have 4: "detect_level (mk_par (32 # [31532, 19968, 31456, 32, 32490, 35770] @ [12288]) None False) [0] 0 = Inr heading1"
    using numbering_examples [where para = "mk_par (32 # [31532, 19968, 31456, 32, 32490, 35770] @ [12288]) None False"
        and all_sizes = "[0]" and idx = 0 and dsa = "[]" and dsb = "[]" and dsc = "[]"
        and sa = 0 and sb = 0 and rest = "[]"]
    by (simp add: ev)
  have 5: "detect_level (mk_par (32 # [19968, 12289, 30740, 31350, 32972, 26223] @ [12288]) None False) [0] 0 = Inr heading1"
    using numbering_examples [where para = "mk_par (32 # [19968, 12289, 30740, 31350, 32972, 26223] @ [12288]) None False"
        and all_sizes = "[0]" and idx = 0 and dsa = "[]" and dsb = "[]" and dsc = "[]"
        and sa = 0 and sb = 0 and rest = "[]"]
    by (simp add: ev)
  have 6: "detect_level (mk_par [49, 46, 50, 51, 46, 52] None False) [0] 0 = Inr heading3"
    using numbering_examples [where para = "mk_par [49, 46, 50, 51, 46, 52] None False"
        and all_sizes = "[0]" and idx = 0 and dsa = "[49]" and sa = 46 and dsb = "[50, 51]"
        and sb = 46 and dsc = "[52]" and rest = "[]"]
    by (simp add: ev)
  have 7: "re_match RE_HEADING2 (strip [49, 46, 50, 51, 46, 52])"
    using RE_HEADING2_backtracks by (simp add: strip_def isspace_def)
  from 1 2 3 4 5 6 7 show ?thesis by simp
qed




section \<open>Applying a paragraph format: the claims\<close>

lemma str_int_examples:
  "str_int 240 = ''240''" "str_int 120 = ''120''" "str_int 360 = ''360''" "str_int 420 = ''420''"
  "str_int 247 = ''247''" "str_int 0 = ''0''" "str_int 480 = ''480''"
  by (simp_all add: str_int_def str_nat.simps digit_char_def)




lemma para_ind_apply:
  "para_ind (apply_para_format para lv tmpl) attr =
     attr (let ind = (case w_pPr para of None \<Rightarrow> new_ind
            | Some pp \<Rightarrow> (case w_ind pp of None \<Rightarrow> new_ind | Some x \<Rightarrow> x))
      in if first_line_indent tmpl \<and> lv = body
         then ind\<lparr>w_firstLine := Some (str_int (sizes tmpl lv * 20))\<rparr>
         else ind\<lparr>w_firstLine := None, w_firstLineChars := None\<rparr>)"
  by (simp add: para_ind_def apply_para_format_def Let_def new_ppr_def
      split: option.splits prod.splits)




text \<open>
  Claim C6. The first-line indent is set only for body under a template that enables
  indentation, to 20 times the template's body size; in every other case both first-line
  indent attributes are removed.
\<close>

theorem first_line_indent_rule:
  "para_ind (apply_para_format para lv tmpl) w_firstLine =
     (if lv = body \<and> first_line_indent tmpl then Some (str_int (sizes tmpl body * 20)) else None) \<and>
   (\<not> (lv = body \<and> first_line_indent tmpl) \<longrightarrow>
      para_ind (apply_para_format para lv tmpl) w_firstLineChars = None)"
  by (auto simp: para_ind_apply Let_def)

theorem first_line_indent_rule_witness:
  "para_ind indented_par w_firstLine = Some ''200'' \<and>
   para_ind indented_par w_firstLineChars = Some ''200'' \<and>
   sizes general_template body = 21 \<and>
   para_ind (apply_para_format indented_par body general_template) w_firstLine = Some ''420'' \<and>
   \<not> (heading1 = body \<and> first_line_indent general_template) \<and>
   para_ind (apply_para_format indented_par heading1 general_template) w_firstLine = None \<and>
   para_ind (apply_para_format indented_par heading1 general_template) w_firstLineChars = None \<and>
   \<not> (body = body \<and> first_line_indent (general_template\<lparr>first_line_indent := False\<rparr>)) \<and>
   para_ind (apply_para_format indented_par body (general_template\<lparr>first_line_indent := False\<rparr>))
     w_firstLine = None \<and>
   para_ind (apply_para_format indented_par body (general_template\<lparr>first_line_indent := False\<rparr>))
     w_firstLineChars = None"
  using first_line_indent_rule [of indented_par body general_template]
    first_line_indent_rule [of indented_par heading1 general_template]
    first_line_indent_rule [of indented_par body "general_template\<lparr>first_line_indent := False\<rparr>"]
  by (simp add: general_template_def str_int_examples indented_par_def para_ind_def)

text \<open>
  Claim C10. In the indenting case the first-line indent is written and a
  \<open>w:firstLineChars\<close> attribute the paragraph arrived with is left as it was.
\<close>

theorem indent_keeps_firstLineChars:
  "lv = body \<Longrightarrow> first_line_indent tmpl \<Longrightarrow>
   para_ind (apply_para_format para lv tmpl) w_firstLine = Some (str_int (sizes tmpl lv * 20)) \<and>
   para_ind (apply_para_format para lv tmpl) w_firstLineChars = para_ind para w_firstLineChars"
  by (simp add: para_ind_apply Let_def) (simp add: para_ind_def new_ind_def split: option.splits)

theorem indent_keeps_firstLineChars_witness:
  "body = body \<and> first_line_indent general_template \<and>
   para_ind indented_par w_firstLineChars = Some ''200'' \<and>
   para_ind (apply_para_format indented_par body general_template) w_firstLine = Some ''420'' \<and>
   para_ind (apply_para_format indented_par body general_template) w_firstLineChars = Some ''200''"
proof -
  have h: "first_line_indent general_template"
    by (simp add: general_template_def)
  show ?thesis
    using h indent_keeps_firstLineChars [OF refl h, of indented_par]
    by (simp add: general_template_def str_int_examples indented_par_def para_ind_def)
qed

section \<open>Properties of the formatting functions\<close>

lemma apply_run_format_rtext [simp]: "rtext (apply_run_format r n c w) = rtext r"
  by (simp add: apply_run_format_def Let_def)

lemma apply_run_format_bold_elem [simp]:
  "run_bold_elem (apply_run_format r n c w) = run_bold_elem r"
  by (simp add: apply_run_format_def run_bold_elem_def Let_def new_rpr_def split: option.splits)

lemma run_is_bold_via_elem:
  "run_is_bold r = (case run_bold_elem r of None \<Rightarrow> False
     | Some e \<Rightarrow> (case w_bval e of None \<Rightarrow> ''1'' | Some v \<Rightarrow> v) \<noteq> ''0'')"
  by (simp add: run_is_bold_def run_bold_elem_def split: option.splits)

lemma apply_run_format_is_bold [simp]:
  "run_is_bold (apply_run_format r n c w) = run_is_bold r"
  by (simp add: run_is_bold_via_elem)

lemma apply_run_format_size [simp]: "get_run_size (apply_run_format r n c w) = n"
  by (simp add: apply_run_format_def get_run_size_def set_size_def Let_def)

lemma apply_run_format_idem:
  "apply_run_format (apply_run_format r n c w) n c w = apply_run_format r n c w"
  by (simp add: apply_run_format_def set_size_def Let_def)

lemma apply_para_format_frame [simp]:
  "ptext (apply_para_format p lv t) = ptext p" "runs (apply_para_format p lv t) = runs p"
  by (simp_all add: apply_para_format_def Let_def split: prod.splits)

lemma apply_para_format_idem:
  "apply_para_format (apply_para_format p lv t) lv t = apply_para_format p lv t"
  by (simp add: apply_para_format_def Let_def split: prod.splits option.splits)

lemma apply_para_format_runs_update:
  "apply_para_format (p\<lparr>runs := rs\<rparr>) lv t = (apply_para_format p lv t)\<lparr>runs := rs\<rparr>"
  by (simp add: apply_para_format_def Let_def split: prod.splits option.splits)

lemma format_par_frame [simp]:
  "ptext (format_par t lv p) = ptext p"
  "runs (format_par t lv p) =
     map (\<lambda>r. apply_run_format r (sizes t lv) (chinese_font t) (western_font t)) (runs p)"
  by (simp_all add: format_par_def)

lemma format_par_idem: "format_par t lv (format_par t lv p) = format_par t lv p"
  by (simp add: format_par_def apply_para_format_runs_update apply_para_format_idem
      apply_run_format_idem comp_def)

lemma format_par_bold [simp]: "para_is_bold (format_par t lv p) = para_is_bold p"
  by (simp add: para_is_bold_def list_ex_iff)

lemma str_nat_nonempty: "str_nat n \<noteq> []"
  by (subst str_nat.simps) simp

lemma str_int_nonempty: "str_int n \<noteq> []"
  by (simp add: str_int_def str_nat_nonempty)

section \<open>Properties of the two loops\<close>

lemma detect_level_total:
  assumes "idx \<le> length szs"
  shows "\<exists>lv. detect_level p szs idx = Inr lv"
proof -
  have "\<not> (idx > 0 \<and> \<not> idx - 1 < length szs)"
    using assms by auto
  then show ?thesis
    unfolding detect_level_def Let_def by (simp only: if_False) simp
qed

lemma detect_level_size_independent:
  assumes "size_independent p" "ptext q = ptext p" "para_is_bold q = para_is_bold p"
    "idx \<le> length szs" "idx \<le> length szs'"
  shows "detect_level q szs' idx = detect_level p szs idx"
proof -
  let ?t = "strip (ptext p)"
  note defs = detect_level_def Let_def HEADING_MAX_LEN_def MAIN_TITLE_MAX_LEN_def
  have r: "\<not> (idx > 0 \<and> \<not> idx - 1 < length szs)" "\<not> (idx > 0 \<and> \<not> idx - 1 < length szs')"
    using assms(4,5) by auto
  consider (empty) "?t = []"
    | (long) "?t \<noteq> []" "length ?t > 40"
    | (h3) "?t \<noteq> []" "\<not> length ?t > 40" "re_match RE_HEADING3 ?t"
    | (h2) "?t \<noteq> []" "\<not> length ?t > 40" "\<not> re_match RE_HEADING3 ?t" "re_match RE_HEADING2 ?t"
    | (h1) "?t \<noteq> []" "\<not> length ?t > 40" "\<not> re_match RE_HEADING3 ?t" "\<not> re_match RE_HEADING2 ?t" "re_match RE_HEADING1 ?t"
    | (mid) "?t \<noteq> []" "\<not> length ?t > 40" "\<not> re_match RE_HEADING3 ?t" "\<not> re_match RE_HEADING2 ?t" "\<not> re_match RE_HEADING1 ?t" "\<not> length ?t \<le> 30"
    | (late) "?t \<noteq> []" "\<not> length ?t > 40" "\<not> re_match RE_HEADING3 ?t" "\<not> re_match RE_HEADING2 ?t" "\<not> re_match RE_HEADING1 ?t" "length ?t \<le> 30"
    by blast
  then show ?thesis
  proof cases
    case empty
    have "detect_level p szs idx = Inr body"
      using empty by (simp add: defs)
    moreover have "detect_level q szs' idx = Inr body"
      using empty by (simp add: defs assms(2))
    ultimately show ?thesis by simp
  next
    case long
    have "detect_level p szs idx = Inr body"
      using long by (simp add: defs)
    moreover have "detect_level q szs' idx = Inr body"
      using long by (simp add: defs assms(2))
    ultimately show ?thesis by simp
  next
    case h3
    have "detect_level p szs idx = Inr heading3"
      using h3 by (simp add: defs)
    moreover have "detect_level q szs' idx = Inr heading3"
      using h3 by (simp add: defs assms(2))
    ultimately show ?thesis by simp
  next
    case h2
    have "detect_level p szs idx = Inr heading2"
      using h2 by (simp add: defs)
    moreover have "detect_level q szs' idx = Inr heading2"
      using h2 by (simp add: defs assms(2))
    ultimately show ?thesis by simp
  next
    case h1
    have "detect_level p szs idx = Inr heading1"
      using h1 by (simp add: defs)
    moreover have "detect_level q szs' idx = Inr heading1"
      using h1 by (simp add: defs assms(2))
    ultimately show ?thesis by simp
  next
    case mid
    have "detect_level p szs idx = Inr body"
      using mid by (simp add: defs)
    moreover have "detect_level q szs' idx = Inr body"
      using mid by (simp add: defs assms(2))
    ultimately show ?thesis by simp
  next
    case late
    have b: "para_is_bold p"
      using assms(1) late unfolding size_independent_def Let_def by simp
    then have b': "para_is_bold q"
      using assms(3) by simp
    have "detect_level p szs idx = Inr main_title"
      using late b r(1) by (simp add: defs)
    moreover have "detect_level q szs' idx = Inr main_title"
      using late b' r(2) by (simp add: defs assms(2))
    ultimately show ?thesis by simp
  qed
qed

lemma convert_loop_skip:
  "strip (ptext p) = [] \<or> runs p = [] \<Longrightarrow>
   convert_loop tmpl szs i (p # ps) =
     (case convert_loop tmpl szs (Suc i) ps of Inl e \<Rightarrow> Inl e
      | Inr (qs, lg) \<Rightarrow> Inr (p # qs, lg))"
  by simp

lemma convert_loop_process:
  "\<not> (strip (ptext p) = [] \<or> runs p = []) \<Longrightarrow>
   convert_loop tmpl szs i (p # ps) =
     (case detect_level p szs i of Inl e \<Rightarrow> Inl e
      | Inr lv \<Rightarrow>
         (case convert_loop tmpl szs (Suc i) ps of Inl e \<Rightarrow> Inl e
          | Inr (qs, lg) \<Rightarrow>
              Inr (format_par tmpl lv p # qs, Processed lv (preview (ptext p)) # lg)))"
  by (simp add: format_par_def Let_def cong: sum.case_cong)

lemma convert_loop_step:
  assumes "convert_loop tmpl szs i (p # ps) = Inr (qs, lg)"
  shows "\<exists>q qs' lg'. qs = q # qs' \<and> convert_loop tmpl szs (Suc i) ps = Inr (qs', lg') \<and>
     (if strip (ptext p) = [] \<or> runs p = [] then q = p \<and> lg = lg'
      else \<exists>lv. detect_level p szs i = Inr lv \<and> q = format_par tmpl lv p \<and>
             lg = Processed lv (preview (ptext p)) # lg')"
proof (cases "strip (ptext p) = [] \<or> runs p = []")
  case True
  show ?thesis
  proof (cases "convert_loop tmpl szs (Suc i) ps")
    case (Inl e)
    then show ?thesis
      using assms True by (simp only: convert_loop_skip sum.case) simp
  next
    case (Inr res)
    obtain qs' lg' where res: "res = (qs', lg')" by (cases res)
    then show ?thesis
      using assms True Inr by (simp only: convert_loop_skip sum.case prod.case) auto
  qed
next
  case False
  show ?thesis
  proof (cases "detect_level p szs i")
    case (Inl e)
    then show ?thesis
      using assms False by (simp only: convert_loop_process sum.case) simp
  next
    case lv: (Inr lv)
    show ?thesis
    proof (cases "convert_loop tmpl szs (Suc i) ps")
      case (Inl e)
      then show ?thesis
        using assms False lv by (simp only: convert_loop_process sum.case) simp
    next
      case (Inr res)
      obtain qs' lg' where res: "res = (qs', lg')" by (cases res)
      then show ?thesis
        using assms False lv Inr
        by (simp only: convert_loop_process sum.case prod.case) (auto simp: format_par_def)
    qed
  qed
qed


lemma check_loop_skip:
  "strip (ptext p) = [] \<or> runs p = [] \<Longrightarrow>
   check_loop tmpl szs i (p # ps) = check_loop tmpl szs (Suc i) ps"
  by simp

lemma check_loop_process:
  "\<not> (strip (ptext p) = [] \<or> runs p = []) \<Longrightarrow>
   check_loop tmpl szs i (p # ps) =
     (case detect_level p szs i of Inl e \<Rightarrow> Inl e
      | Inr lv \<Rightarrow>
         (case check_loop tmpl szs (Suc i) ps of Inl e \<Rightarrow> Inl e
          | Inr rest \<Rightarrow>
              Inr (if check_sizes (sizes tmpl lv) (runs p) @ check_indent p lv tmpl \<noteq> []
                   then \<lparr>i_level = lv, i_text = take 40 (strip (ptext p)),
                         i_issues = check_sizes (sizes tmpl lv) (runs p) @ check_indent p lv tmpl\<rparr>
                        # rest
                   else rest)))"
  by (simp add: Let_def cong: sum.case_cong)

declare convert_loop.simps(2) [simp del] check_loop.simps(2) [simp del]

lemma convert_loop_total:
  "i + length ps \<le> length szs \<Longrightarrow> \<exists>res. convert_loop tmpl szs i ps = Inr res"
proof (induction ps arbitrary: i)
  case Nil
  then show ?case by simp
next
  case (Cons p ps)
  have "Suc i + length ps \<le> length szs"
    using Cons.prems by simp
  from Cons.IH [OF this] obtain qs lg where r: "convert_loop tmpl szs (Suc i) ps = Inr (qs, lg)"
    by fastforce
  have "i \<le> length szs"
    using Cons.prems by simp
  from detect_level_total [OF this] obtain lv where l: "detect_level p szs i = Inr lv"
    by blast
  show ?case
  proof (cases "strip (ptext p) = [] \<or> runs p = []")
    case True
    show ?thesis
      using r by (simp add: convert_loop_skip [OF True])
  next
    case False
    show ?thesis
      using r l by (simp add: convert_loop_process [OF False])
  qed
qed



lemma check_loop_total:
  "i + length ps \<le> length szs \<Longrightarrow> \<exists>iss. check_loop tmpl szs i ps = Inr iss"
proof (induction ps arbitrary: i)
  case Nil
  then show ?case by simp
next
  case (Cons p ps)
  have "Suc i + length ps \<le> length szs"
    using Cons.prems by simp
  from Cons.IH [OF this] obtain iss where r: "check_loop tmpl szs (Suc i) ps = Inr iss"
    by blast
  have "i \<le> length szs"
    using Cons.prems by simp
  from detect_level_total [OF this] obtain lv where l: "detect_level p szs i = Inr lv"
    by blast
  show ?case
  proof (cases "strip (ptext p) = [] \<or> runs p = []")
    case True
    show ?thesis
      using r by (simp add: check_loop_skip [OF True])
  next
    case False
    show ?thesis
      using r l by (simp add: check_loop_process [OF False])
  qed
qed

lemma convert_loop_frame:
  "convert_loop tmpl szs i ps = Inr (qs, lg) \<Longrightarrow>
   list_all2 (\<lambda>p q. ptext q = ptext p \<and> map rtext (runs q) = map rtext (runs p) \<and>
     map run_bold_elem (runs q) = map run_bold_elem (runs p) \<and>
     map run_is_bold (runs q) = map run_is_bold (runs p)) ps qs"
proof (induction ps arbitrary: i qs lg)
  case Nil
  then show ?case by simp
next
  case (Cons p ps)
  from convert_loop_step [OF Cons.prems] obtain q qs' lg' where
    s: "qs = q # qs'" "convert_loop tmpl szs (Suc i) ps = Inr (qs', lg')"
      "if strip (ptext p) = [] \<or> runs p = [] then q = p \<and> lg = lg'
       else \<exists>lv. detect_level p szs i = Inr lv \<and> q = format_par tmpl lv p \<and>
             lg = Processed lv (preview (ptext p)) # lg'"
    by blast
  have "ptext q = ptext p \<and> map rtext (runs q) = map rtext (runs p) \<and>
     map run_bold_elem (runs q) = map run_bold_elem (runs p) \<and>
     map run_is_bold (runs q) = map run_is_bold (runs p)"
  proof (cases "strip (ptext p) = [] \<or> runs p = []")
    case True
    then show ?thesis using s(3) by simp
  next
    case False
    then obtain lv where "q = format_par tmpl lv p"
      using s(3) by auto
    then show ?thesis by (simp add: comp_def)
  qed
  then show ?case
    using s(1) Cons.IH [OF s(2)] by simp
qed

lemma check_sizes_formatted:
  "check_sizes n (map (\<lambda>r. apply_run_format r n c w) rs) = []"
  by (induction rs) simp_all

lemma check_indent_formatted: "check_indent (format_par tmpl lv p) lv tmpl = []"
  by (simp add: check_indent_def format_par_def para_ind_apply str_int_nonempty Let_def)

lemma convert_loop_again:
  "convert_loop tmpl szs i ps = Inr (qs, lg) \<Longrightarrow>
   (\<forall>j<length ps. detect_level (qs ! j) szs' (i + j) = detect_level (ps ! j) szs (i + j)) \<Longrightarrow>
   convert_loop tmpl szs' i qs = Inr (qs, lg) \<and> check_loop tmpl szs' i qs = Inr []"
proof (induction ps arbitrary: i qs lg)
  case Nil
  then show ?case by simp
next
  case (Cons p ps)
  from convert_loop_step [OF Cons.prems(1)] obtain q qs' lg' where
    s: "qs = q # qs'" "convert_loop tmpl szs (Suc i) ps = Inr (qs', lg')"
      "if strip (ptext p) = [] \<or> runs p = [] then q = p \<and> lg = lg'
       else \<exists>lv. detect_level p szs i = Inr lv \<and> q = format_par tmpl lv p \<and>
             lg = Processed lv (preview (ptext p)) # lg'"
    by blast
  have "\<forall>j<length ps. detect_level (qs' ! j) szs' (Suc i + j) = detect_level (ps ! j) szs (Suc i + j)"
  proof (intro allI impI)
    fix j assume "j < length ps"
    then show "detect_level (qs' ! j) szs' (Suc i + j) = detect_level (ps ! j) szs (Suc i + j)"
      using Cons.prems(2) [rule_format, of "Suc j"] s(1) by simp
  qed
  from Cons.IH [OF s(2) this]
  have ih: "convert_loop tmpl szs' (Suc i) qs' = Inr (qs', lg')"
    "check_loop tmpl szs' (Suc i) qs' = Inr []"
    by simp_all
  have d0: "detect_level q szs' i = detect_level p szs i"
    using Cons.prems(2) [rule_format, of 0] s(1) by simp
  show ?case
  proof (cases "strip (ptext p) = [] \<or> runs p = []")
    case True
    then have e: "q = p" "lg = lg'"
      using s(3) by simp_all
    have "convert_loop tmpl szs' i (p # qs') = Inr (p # qs', lg')"
      using ih(1) by (simp add: convert_loop_skip [OF True])
    moreover have "check_loop tmpl szs' i (p # qs') = Inr []"
      using ih(2) by (simp add: check_loop_skip [OF True])
    ultimately show ?thesis
      using e s(1) by simp
  next
    case False
    then obtain lv where l: "detect_level p szs i = Inr lv" "q = format_par tmpl lv p"
      "lg = Processed lv (preview (ptext p)) # lg'"
      using s(3) by auto
    have n: "\<not> (strip (ptext q) = [] \<or> runs q = [])"
      using False l(2) by simp
    have dq: "detect_level q szs' i = Inr lv"
      using d0 l(1) by simp
    have c0: "convert_loop tmpl szs' i (q # qs') =
        Inr (format_par tmpl lv q # qs', Processed lv (preview (ptext q)) # lg')"
      using dq ih(1) by (simp add: convert_loop_process [OF n])
    have c: "convert_loop tmpl szs' i (q # qs') = Inr (q # qs', lg)"
      unfolding c0 using l(2,3) format_par_idem [of tmpl lv p] by simp
    have "check_sizes (sizes tmpl lv) (runs q) @ check_indent q lv tmpl = []"
      using check_indent_formatted [of tmpl lv p]
        check_sizes_formatted [of "sizes tmpl lv" "chinese_font tmpl" "western_font tmpl" "runs p"]
      by (simp add: l(2))
    then have k: "check_loop tmpl szs' i (q # qs') = Inr []"
      using dq ih(2) by (simp add: check_loop_process [OF n])
    show ?thesis
      using c k s(1) by simp
  qed
qed

lemma check_sizes_find:
  "check_sizes target rs =
     (case find (\<lambda>r. get_run_size r \<noteq> 0 \<and> get_run_size r \<noteq> target) rs of
        None \<Rightarrow> [] | Some r \<Rightarrow> [SizeMismatch target (get_run_size r)])"
  by (induction rs) (simp_all add: Let_def)

lemma check_sizes_length: "length (check_sizes target rs) \<le> 1"
  by (induction rs) (simp_all add: Let_def)

lemma check_indent_no_size: "filter is_size_mismatch (check_indent p lv tmpl) = []"
  by (simp add: check_indent_def Let_def)

lemma para_issues_one_mismatch:
  "length (filter is_size_mismatch (check_sizes target rs @ check_indent p lv tmpl)) \<le> 1"
proof -
  have "length (filter is_size_mismatch (check_sizes target rs)) \<le> length (check_sizes target rs)"
    by (rule length_filter_le)
  also have "\<dots> \<le> 1"
    by (rule check_sizes_length)
  finally show ?thesis
    by (simp add: check_indent_no_size)
qed

lemma check_loop_entries:
  "check_loop tmpl szs i ps = Inr iss \<Longrightarrow> x \<in> set iss \<Longrightarrow>
   \<exists>j<length ps. strip (ptext (ps ! j)) \<noteq> [] \<and> runs (ps ! j) \<noteq> [] \<and>
     detect_level (ps ! j) szs (i + j) = Inr (i_level x) \<and>
     i_text x = take 40 (strip (ptext (ps ! j))) \<and>
     i_issues x = check_sizes (sizes tmpl (i_level x)) (runs (ps ! j)) @
                  check_indent (ps ! j) (i_level x) tmpl \<and>
     i_issues x \<noteq> []"
proof (induction ps arbitrary: i iss)
  case Nil
  then show ?case by simp
next
  case (Cons p ps)
  show ?case
  proof (cases "strip (ptext p) = [] \<or> runs p = []")
    case True
    then have "check_loop tmpl szs (Suc i) ps = Inr iss"
      using Cons.prems(1) by (simp add: check_loop_skip [OF True])
    from Cons.IH [OF this Cons.prems(2)] obtain j where
      "j < length ps" "strip (ptext (ps ! j)) \<noteq> [] \<and> runs (ps ! j) \<noteq> [] \<and>
        detect_level (ps ! j) szs (Suc i + j) = Inr (i_level x) \<and>
        i_text x = take 40 (strip (ptext (ps ! j))) \<and>
        i_issues x = check_sizes (sizes tmpl (i_level x)) (runs (ps ! j)) @
                     check_indent (ps ! j) (i_level x) tmpl \<and>
        i_issues x \<noteq> []"
      by blast
    then show ?thesis
      by (intro exI [of _ "Suc j"]) auto
  next
    case False
    obtain lv where lv: "detect_level p szs i = Inr lv"
      using Cons.prems(1) by (cases "detect_level p szs i") (simp_all add: check_loop_process [OF False])
    obtain rest where rest: "check_loop tmpl szs (Suc i) ps = Inr rest"
      using Cons.prems(1) lv
      by (cases "check_loop tmpl szs (Suc i) ps") (simp_all add: check_loop_process [OF False])
    let ?is = "check_sizes (sizes tmpl lv) (runs p) @ check_indent p lv tmpl"
    let ?e = "\<lparr>i_level = lv, i_text = take 40 (strip (ptext p)), i_issues = ?is\<rparr>"
    have iss: "iss = (if ?is \<noteq> [] then ?e # rest else rest)"
      using Cons.prems(1) lv rest by (simp add: check_loop_process [OF False])
    show ?thesis
    proof (cases "x \<in> set rest")
      case True
      from Cons.IH [OF rest True] obtain j where
        "j < length ps" "strip (ptext (ps ! j)) \<noteq> [] \<and> runs (ps ! j) \<noteq> [] \<and>
          detect_level (ps ! j) szs (Suc i + j) = Inr (i_level x) \<and>
          i_text x = take 40 (strip (ptext (ps ! j))) \<and>
          i_issues x = check_sizes (sizes tmpl (i_level x)) (runs (ps ! j)) @
                       check_indent (ps ! j) (i_level x) tmpl \<and>
          i_issues x \<noteq> []"
        by blast
      then show ?thesis
        by (intro exI [of _ "Suc j"]) auto
    next
      case nr: False
      then have "?is \<noteq> [] \<and> x = ?e"
        using Cons.prems(2) iss by (auto split: if_splits)
      then show ?thesis
        using False lv by (intro exI [of _ 0]) auto
    qed
  qed
qed

end
